theory Spec2Isabelle
  imports Main "HOL-Library.Word"
begin

unbundle bit_operations_syntax

section \<open>The byte buffer stub library \<open>mock_zmq.c\<close>\<close>

text \<open>
  The three functions of \<open>native/src/mock_zmq.c\<close> take a pointer and a length and run
  one \<open>for\<close> loop over \<open>data[0] .. data[len - 1]\<close>. The model keeps the memory the
  pointer points into explicit: a function takes the memory and returns the memory it
  leaves behind, together with its return value.

  \<^item> \<open>uint8_t\<close> is \<open>8 word\<close>; \<open>size_t\<close> and the address of a byte are \<open>64 word\<close>
    (an LP64 target); \<open>int64_t\<close> is \<open>64 word\<close>, read with \<open>sint\<close>.
  \<^item> The memory maps an address to the byte stored there, or to \<open>None\<close> where no
    object lives. \<open>data[i]\<close> is the byte at address \<open>data + i\<close>.
  \<^item> An access to an address outside every object is undefined behaviour in C. The
    model makes it a result of its own: the function returns \<open>None\<close>.
  \<^item> \<open>checksum += data[i]\<close> adds in \<open>int64_t\<close>. The model adds in \<open>64 word\<close>, that
    is, two's complement with wrap-around (the spec's data model: "natural wraparound
    of the chosen integer width"). The sum can only leave the \<open>int64_t\<close> range on a
    buffer of more than \<open>2 ^ 55\<close> bytes.
\<close>

type_synonym uint8_t = "8 word"
type_synonym size_t = "64 word"
type_synonym int64_t = "64 word"
type_synonym addr = "64 word"
type_synonym memory = "addr \<Rightarrow> uint8_t option"

subsection \<open>\<open>mock_send\<close>\<close>

text \<open>
  \<^verbatim>\<open>
  int64_t mock_send(const uint8_t* data, size_t len) {
      int64_t checksum = 0;
      for (size_t i = 0; i < len; i++) {
          checksum += data[i];
      }
      return checksum;
  }
  \<close>
  The loop, from the state \<open>(i, checksum)\<close> on. \<open>data[i]\<close> is promoted to \<open>int\<close> and
  converted to \<open>int64_t\<close>: a zero extension, \<open>ucast\<close>.
\<close>

function mock_send_loop ::
  "memory \<Rightarrow> addr \<Rightarrow> size_t \<Rightarrow> size_t \<Rightarrow> int64_t \<Rightarrow> (int64_t \<times> memory) option" where
  "mock_send_loop m data len i checksum =
     (if i < len then
        (case m (data + i) of
           None \<Rightarrow> None
         | Some b \<Rightarrow> mock_send_loop m data len (i + 1) (checksum + ucast b))
      else Some (checksum, m))"
  by pat_completeness auto
termination
  by (relation "measure (\<lambda>(m, data, len, i, checksum). unat len - unat i)")
     (simp_all, unat_arith)

definition mock_send :: "memory \<Rightarrow> addr \<Rightarrow> size_t \<Rightarrow> (int64_t \<times> memory) option" where
  "mock_send m data len = mock_send_loop m data len 0 0"

subsection \<open>\<open>mock_recv\<close>\<close>

text \<open>
  \<^verbatim>\<open>
  int64_t mock_recv(uint8_t* buf, size_t len) {
      for (size_t i = 0; i < len; i++) {
          buf[i] = (uint8_t)(i & 0xFF);
      }
      return (int64_t)len;
  }
  \<close>
  A store to \<open>buf[i]\<close> needs an object at \<open>buf + i\<close>, as a load does; the byte that was
  there is not read. \<open>(int64_t)len\<close> keeps the 64 bits of \<open>len\<close>.
\<close>

function mock_recv_loop ::
  "memory \<Rightarrow> addr \<Rightarrow> size_t \<Rightarrow> size_t \<Rightarrow> memory option" where
  "mock_recv_loop m buf len i =
     (if i < len then
        (case m (buf + i) of
           None \<Rightarrow> None
         | Some _ \<Rightarrow> mock_recv_loop (m(buf + i \<mapsto> ucast (i AND 0xFF))) buf len (i + 1))
      else Some m)"
  by pat_completeness auto
termination
  by (relation "measure (\<lambda>(m, buf, len, i). unat len - unat i)")
     (simp_all, unat_arith)

definition mock_recv :: "memory \<Rightarrow> addr \<Rightarrow> size_t \<Rightarrow> (int64_t \<times> memory) option" where
  "mock_recv m buf len =
     (case mock_recv_loop m buf len 0 of
        None \<Rightarrow> None
      | Some m' \<Rightarrow> Some (ucast len, m'))"

subsection \<open>\<open>mock_transform\<close>\<close>

text \<open>
  \<^verbatim>\<open>
  void mock_transform(uint8_t* data, size_t len) {
      for (size_t i = 0; i < len; i++) {
          data[i] ^= 0xAA;
      }
  }
  \<close>
  \<open>data[i] ^= 0xAA\<close> loads the byte, XORs it with \<open>0xAA\<close> in \<open>int\<close> and stores the low
  eight bits: the XOR of the byte with \<open>0xAA\<close> in \<open>uint8_t\<close>.
\<close>

function mock_transform_loop ::
  "memory \<Rightarrow> addr \<Rightarrow> size_t \<Rightarrow> size_t \<Rightarrow> memory option" where
  "mock_transform_loop m data len i =
     (if i < len then
        (case m (data + i) of
           None \<Rightarrow> None
         | Some b \<Rightarrow> mock_transform_loop (m(data + i \<mapsto> b XOR 0xAA)) data len (i + 1))
      else Some m)"
  by pat_completeness auto
termination
  by (relation "measure (\<lambda>(m, data, len, i). unat len - unat i)")
     (simp_all, unat_arith)

definition mock_transform :: "memory \<Rightarrow> addr \<Rightarrow> size_t \<Rightarrow> memory option" where
  "mock_transform m data len = mock_transform_loop m data len 0"

subsection \<open>Buffers\<close>

text \<open>
  The caller's side of the contract: the \<open>len\<close> bytes that start at \<open>p\<close> all lie in an
  object. A length of 0 asks for nothing.
\<close>

definition valid_buf :: "memory \<Rightarrow> addr \<Rightarrow> size_t \<Rightarrow> bool" where
  "valid_buf m p len = list_all (\<lambda>k. m (p + of_nat k) \<noteq> None) [0..<unat len]"

text \<open>
  The address \<open>a\<close> is one of the \<open>len\<close> bytes that start at \<open>p\<close>: \<open>a = p + i\<close> for an index
  \<open>i < len\<close>.
\<close>

definition in_buf :: "addr \<Rightarrow> size_t \<Rightarrow> addr \<Rightarrow> bool" where
  "in_buf p len a = (a - p < len)"

text \<open>
  What the memory holds at the \<open>len\<close> addresses from \<open>p\<close> on, first to last.
\<close>

definition buf_contents :: "memory \<Rightarrow> addr \<Rightarrow> size_t \<Rightarrow> uint8_t option list" where
  "buf_contents m p len = map (\<lambda>k. m (p + of_nat k)) [0..<unat len]"

text \<open>
  The bytes of a valid buffer, first to last.
\<close>

definition buf_bytes :: "memory \<Rightarrow> addr \<Rightarrow> size_t \<Rightarrow> uint8_t list" where
  "buf_bytes m p len = map (\<lambda>k. the (m (p + of_nat k))) [0..<unat len]"

text \<open>
  The sum of the bytes, each read as an unsigned value \<open>0 .. 255\<close>, in the natural numbers.
\<close>

definition byte_sum :: "uint8_t list \<Rightarrow> nat" where
  "byte_sum bs = sum_list (map unat bs)"

text \<open>
  A memory with one object: the bytes \<open>xs\<close>, stored from the address \<open>base\<close> on.
\<close>

definition mem_of :: "addr \<Rightarrow> uint8_t list \<Rightarrow> memory" where
  "mem_of base xs = (\<lambda>a. if unat (a - base) < length xs then Some (xs ! unat (a - base)) else None)"

section \<open>The loops\<close>

text \<open>
  The recursion equations of the loops are applied by hand, one iteration at a time.
\<close>

declare mock_send_loop.simps [simp del]
declare mock_recv_loop.simps [simp del]
declare mock_transform_loop.simps [simp del]

subsection \<open>Indices and addresses\<close>

lemma word_succ_unat: "i < len \<Longrightarrow> unat (i + 1) = Suc (unat i)" for i len :: size_t
  by unat_arith

lemma word_succ_le: "i < len \<Longrightarrow> i + 1 \<le> x \<longleftrightarrow> i < x" for i len x :: size_t
  by unat_arith

lemma of_nat_lt_len: "k < unat len \<Longrightarrow> (of_nat k :: size_t) < len"
  by (simp add: word_less_nat_alt le_unat_uoi [of k len])

lemma valid_buf_iff: "valid_buf m p len \<longleftrightarrow> (\<forall>i. i < len \<longrightarrow> m (p + i) \<noteq> None)"
proof
  assume v: "valid_buf m p len"
  show "\<forall>i. i < len \<longrightarrow> m (p + i) \<noteq> None"
  proof (intro allI impI)
    fix i :: size_t assume "i < len"
    then have "unat i < unat len" by (simp add: word_less_nat_alt)
    with v have "m (p + of_nat (unat i)) \<noteq> None"
      unfolding valid_buf_def list_all_iff by (metis atLeastLessThan_iff set_upt zero_le)
    then show "m (p + i) \<noteq> None" by simp
  qed
next
  assume a: "\<forall>i. i < len \<longrightarrow> m (p + i) \<noteq> None"
  show "valid_buf m p len"
    unfolding valid_buf_def list_all_iff
  proof
    fix k assume "k \<in> set [0..<unat len]"
    then have k: "k < unat len" by simp
    then have "(of_nat k :: size_t) < len"
      by (simp add: word_less_nat_alt le_unat_uoi [of k len])
    with a show "m (p + of_nat k) \<noteq> None" by blast
  qed
qed

lemma valid_buf_from: "valid_buf m p len \<Longrightarrow> \<forall>j. 0 \<le> j \<and> j < len \<longrightarrow> m (p + j) \<noteq> None"
  by (simp add: valid_buf_iff)

lemma in_buf_iff: "in_buf p len a \<longleftrightarrow> (\<exists>i. i < len \<and> a = p + i)"
  unfolding in_buf_def
  by (metis add_diff_cancel_left' diff_add_cancel)

lemma in_buf_offset: "in_buf p len (p + i) \<longleftrightarrow> i < len"
  by (simp add: in_buf_def)

lemma buf_contents_eq_iff:
  "buf_contents m1 p1 len = buf_contents m2 p2 len \<longleftrightarrow>
     (\<forall>i. i < len \<longrightarrow> m1 (p1 + i) = m2 (p2 + i))"
proof
  assume e: "buf_contents m1 p1 len = buf_contents m2 p2 len"
  show "\<forall>i. i < len \<longrightarrow> m1 (p1 + i) = m2 (p2 + i)"
  proof (intro allI impI)
    fix i :: size_t assume "i < len"
    then have "unat i \<in> set [0..<unat len]" by (simp add: word_less_nat_alt)
    moreover from e have "\<forall>k\<in>set [0..<unat len]. m1 (p1 + of_nat k) = m2 (p2 + of_nat k)"
      unfolding buf_contents_def map_eq_conv .
    ultimately have "m1 (p1 + of_nat (unat i)) = m2 (p2 + of_nat (unat i))"
      by blast
    then show "m1 (p1 + i) = m2 (p2 + i)" by simp
  qed
next
  assume "\<forall>i. i < len \<longrightarrow> m1 (p1 + i) = m2 (p2 + i)"
  then show "buf_contents m1 p1 len = buf_contents m2 p2 len"
    by (simp add: buf_contents_def of_nat_lt_len)
qed

subsection \<open>Loop invariants\<close>

lemma mock_send_loop_sum:
  assumes "\<forall>j. i \<le> j \<and> j < len \<longrightarrow> m (p + j) \<noteq> None"
  shows "mock_send_loop m p len i c =
           Some (c + of_nat (\<Sum>k = unat i..<unat len. unat (the (m (p + of_nat k)))), m)"
  using assms
proof (induction m p len i c rule: mock_send_loop.induct)
  case (1 m p len i c)
  show ?case
  proof (cases "i < len")
    case False
    then have "unat len \<le> unat i" by (simp add: word_less_nat_alt)
    with False show ?thesis by (simp add: mock_send_loop.simps [of m p len i c])
  next
    case True
    with "1.prems" obtain b where b: "m (p + i) = Some b" by auto
    have v: "\<forall>j. i + 1 \<le> j \<and> j < len \<longrightarrow> m (p + j) \<noteq> None"
      using "1.prems" True by (auto simp add: word_succ_le [OF True])
    have lt: "unat i < unat len" using True by (simp add: word_less_nat_alt)
    have split: "(\<Sum>k = unat i..<unat len. unat (the (m (p + of_nat k)))) =
                   unat b + (\<Sum>k = Suc (unat i)..<unat len. unat (the (m (p + of_nat k))))"
      using lt b by (simp add: sum.atLeast_Suc_lessThan)
    have "mock_send_loop m p len i c = mock_send_loop m p len (i + 1) (c + ucast b)"
      using True b by (simp add: mock_send_loop.simps [of m p len i c])
    also have "\<dots> = Some (c + ucast b +
                 of_nat (\<Sum>k = Suc (unat i)..<unat len. unat (the (m (p + of_nat k)))), m)"
      using "1.IH" [OF True b v] by (simp add: word_succ_unat [OF True])
    finally show ?thesis by (simp add: split add.assoc)
  qed
qed

lemma mock_send_loop_frame:
  "mock_send_loop m p len i c = Some (r, m') \<Longrightarrow> m' = m"
proof (induction m p len i c rule: mock_send_loop.induct)
  case (1 m p len i c)
  show ?case
  proof (cases "i < len")
    case False
    with "1.prems" show ?thesis by (simp add: mock_send_loop.simps [of m p len i c])
  next
    case True
    with "1.prems" obtain b where b: "m (p + i) = Some b"
      by (auto simp add: mock_send_loop.simps [of m p len i c] split: option.splits)
    with True "1.prems" have "mock_send_loop m p len (i + 1) (c + ucast b) = Some (r, m')"
      by (simp add: mock_send_loop.simps [of m p len i c])
    then show ?thesis by (rule "1.IH" [OF True b])
  qed
qed

lemma mock_recv_loop_fill:
  assumes "\<forall>j. i \<le> j \<and> j < len \<longrightarrow> m (p + j) \<noteq> None"
  shows "mock_recv_loop m p len i =
           Some (\<lambda>a. if i \<le> a - p \<and> a - p < len then Some (ucast ((a - p) AND 0xFF)) else m a)"
  using assms
proof (induction m p len i rule: mock_recv_loop.induct)
  case (1 m p len i)
  show ?case
  proof (cases "i < len")
    case False
    then have "(\<lambda>a. if i \<le> a - p \<and> a - p < len
                     then Some (ucast ((a - p) AND 0xFF)) else m a) = m"
      by (intro ext) auto
    with False show ?thesis by (simp only: mock_recv_loop.simps [of m p len i] if_False)
  next
    case True
    with "1.prems" obtain b where b: "m (p + i) = Some b" by auto
    let ?m2 = "m(p + i \<mapsto> ucast (i AND 0xFF))"
    have v: "\<forall>j. i + 1 \<le> j \<and> j < len \<longrightarrow> ?m2 (p + j) \<noteq> None"
      using "1.prems" True by (auto simp add: word_succ_le [OF True])
    have "mock_recv_loop m p len i = mock_recv_loop ?m2 p len (i + 1)"
      using True b by (simp add: mock_recv_loop.simps [of m p len i])
    also have "\<dots> = Some (\<lambda>a. if i + 1 \<le> a - p \<and> a - p < len
                                then Some (ucast ((a - p) AND 0xFF)) else ?m2 a)"
      by (rule "1.IH" [OF True b v])
    also have "(\<lambda>a. if i + 1 \<le> a - p \<and> a - p < len
                      then Some (ucast ((a - p) AND 0xFF)) else ?m2 a) =
               (\<lambda>a. if i \<le> a - p \<and> a - p < len
                      then Some (ucast ((a - p) AND 0xFF)) else m a)"
    proof
      fix a
      show "(if i + 1 \<le> a - p \<and> a - p < len
               then Some (ucast ((a - p) AND 0xFF)) else ?m2 a) =
            (if i \<le> a - p \<and> a - p < len
               then Some (ucast ((a - p) AND 0xFF)) else m a)"
      proof (cases "a = p + i")
        case True
        with \<open>i < len\<close> show ?thesis by (simp add: word_succ_le [OF \<open>i < len\<close>])
      next
        case False
        then have "a - p \<noteq> i" by auto
        then have "i \<le> a - p \<longleftrightarrow> i < a - p" by auto
        with False show ?thesis by (simp add: word_succ_le [OF \<open>i < len\<close>])
      qed
    qed
    finally show ?thesis .
  qed
qed

lemma mock_transform_loop_xor:
  assumes "\<forall>j. i \<le> j \<and> j < len \<longrightarrow> m (p + j) \<noteq> None"
  shows "mock_transform_loop m p len i =
           Some (\<lambda>a. if i \<le> a - p \<and> a - p < len
                      then map_option (\<lambda>b. b XOR 0xAA) (m a) else m a)"
  using assms
proof (induction m p len i rule: mock_transform_loop.induct)
  case (1 m p len i)
  show ?case
  proof (cases "i < len")
    case False
    then have "(\<lambda>a. if i \<le> a - p \<and> a - p < len
                     then map_option (\<lambda>b. b XOR 0xAA) (m a) else m a) = m"
      by (intro ext) auto
    with False show ?thesis by (simp only: mock_transform_loop.simps [of m p len i] if_False)
  next
    case True
    with "1.prems" obtain b where b: "m (p + i) = Some b" by auto
    let ?m2 = "m(p + i \<mapsto> b XOR 0xAA)"
    have v: "\<forall>j. i + 1 \<le> j \<and> j < len \<longrightarrow> ?m2 (p + j) \<noteq> None"
      using "1.prems" True by (auto simp add: word_succ_le [OF True])
    have "mock_transform_loop m p len i = mock_transform_loop ?m2 p len (i + 1)"
      using True b by (simp add: mock_transform_loop.simps [of m p len i])
    also have "\<dots> = Some (\<lambda>a. if i + 1 \<le> a - p \<and> a - p < len
                                then map_option (\<lambda>b. b XOR 0xAA) (?m2 a) else ?m2 a)"
      by (rule "1.IH" [OF True b v])
    also have "(\<lambda>a. if i + 1 \<le> a - p \<and> a - p < len
                      then map_option (\<lambda>b. b XOR 0xAA) (?m2 a) else ?m2 a) =
               (\<lambda>a. if i \<le> a - p \<and> a - p < len
                      then map_option (\<lambda>b. b XOR 0xAA) (m a) else m a)"
    proof
      fix a
      show "(if i + 1 \<le> a - p \<and> a - p < len
               then map_option (\<lambda>b. b XOR 0xAA) (?m2 a) else ?m2 a) =
            (if i \<le> a - p \<and> a - p < len
               then map_option (\<lambda>b. b XOR 0xAA) (m a) else m a)"
      proof (cases "a = p + i")
        case True
        with \<open>i < len\<close> b show ?thesis by (simp add: word_succ_le [OF \<open>i < len\<close>])
      next
        case False
        then have "a - p \<noteq> i" by auto
        then have "i \<le> a - p \<longleftrightarrow> i < a - p" by auto
        with False show ?thesis by (simp add: word_succ_le [OF \<open>i < len\<close>])
      qed
    qed
    finally show ?thesis .
  qed
qed

subsection \<open>The three functions in closed form\<close>

lemma mock_send_result:
  assumes "valid_buf m data len"
  shows "mock_send m data len = Some (of_nat (byte_sum (buf_bytes m data len)), m)"
proof -
  have "byte_sum (buf_bytes m data len) = (\<Sum>k = 0..<unat len. unat (the (m (data + of_nat k))))"
    by (simp add: byte_sum_def buf_bytes_def comp_def interv_sum_list_conv_sum_set_nat)
  with mock_send_loop_sum [OF valid_buf_from [OF assms], of 0] show ?thesis
    by (simp add: mock_send_def)
qed

lemma mock_recv_result:
  assumes "valid_buf m buf len"
  shows "mock_recv m buf len =
           Some (ucast len, \<lambda>a. if in_buf buf len a then Some (ucast ((a - buf) AND 0xFF)) else m a)"
  using mock_recv_loop_fill [OF valid_buf_from [OF assms]]
  by (simp add: mock_recv_def in_buf_def)

lemma mock_transform_result:
  assumes "valid_buf m data len"
  shows "mock_transform m data len =
           Some (\<lambda>a. if in_buf data len a then map_option (\<lambda>b. b XOR 0xAA) (m a) else m a)"
  using mock_transform_loop_xor [OF valid_buf_from [OF assms]]
  by (simp add: mock_transform_def in_buf_def)

lemma valid_buf_transform:
  "valid_buf m p len \<Longrightarrow>
   valid_buf (\<lambda>a. if in_buf p len a then map_option f (m a) else m a) p len"
  by (simp add: valid_buf_iff in_buf_offset)

subsection \<open>Bytes and integers\<close>

lemma mask_255: "(255 :: size_t) = mask 8"
  by (simp add: mask_eq_exp_minus_1)

lemma pattern_byte_mod: "unat (ucast (i AND 0xFF) :: uint8_t) = unat i mod 256" for i :: size_t
proof -
  have "unat (ucast (i AND 0xFF) :: uint8_t) = take_bit 8 (unat (i AND mask 8))"
    by (simp add: unsigned_ucast_eq mask_255)
  also have "\<dots> = take_bit 8 (unat i)"
    by (simp add: unsigned_and_eq unsigned_take_bit_eq flip: take_bit_eq_mask)
  finally show ?thesis by (simp add: take_bit_eq_mod)
qed

lemma xor_aa_twice: "(b XOR 0xAA) XOR 0xAA = b" for b :: uint8_t
  by (simp add: xor.assoc)

lemma sint_of_nat: "sint (word_of_nat n :: int64_t) = signed_take_bit 63 (int n)"
  using sint_sbintrunc' [of "int n", where 'a = 64] by simp

lemma sint_of_nat_small: "n < 2 ^ 63 \<Longrightarrow> sint (word_of_nat n :: int64_t) = int n"
  by (simp add: sint_of_nat signed_take_bit_int_eq_self)

lemma byte_sum_le: "byte_sum bs \<le> 255 * length bs"
proof (induction bs)
  case Nil show ?case by (simp add: byte_sum_def)
next
  case (Cons b bs)
  have "unat b < 256" using unsigned_less [of b, where 'a = nat] by simp
  with Cons show ?case by (simp add: byte_sum_def)
qed

subsection \<open>Concrete memories\<close>

lemma mem_of_offset: "mem_of base xs (base + i) = (if unat i < length xs then Some (xs ! unat i) else None)"
  by (simp add: mem_of_def)

lemma valid_buf_mem_of:
  assumes "unat len \<le> length xs"
  shows "valid_buf (mem_of base xs) base len"
  unfolding valid_buf_iff
proof (intro allI impI)
  fix i :: size_t assume "i < len"
  then have "unat i < unat len" by (simp add: word_less_nat_alt)
  with assms have "unat i < length xs" by simp
  then show "mem_of base xs (base + i) \<noteq> None" by (simp add: mem_of_offset)
qed

lemma upt_2: "[0..<2] = [0, 1]" by code_simp

lemma upt_3: "[0..<3] = [0, 1, 2]" by code_simp

lemma upt_4: "[0..<4] = [0, 1, 2, 3]" by code_simp

lemma mem_of_transform_example:
  "(\<lambda>a. if in_buf 0x1000 3 a
        then map_option (\<lambda>b. b XOR 0xAA) (mem_of 0x1000 [0x00, 0xFF, 0xAA] a)
        else mem_of 0x1000 [0x00, 0xFF, 0xAA] a) = mem_of 0x1000 [0xAA, 0x55, 0x00]"
proof
  fix a :: addr
  have lt: "a - 0x1000 < 3 \<longleftrightarrow> unat (a - 0x1000) < 3"
    by (simp add: word_less_nat_alt)
  have "unat (a - 0x1000) < 3 \<Longrightarrow>
          unat (a - 0x1000) = 0 \<or> unat (a - 0x1000) = 1 \<or> unat (a - 0x1000) = 2"
    by arith
  then show "(if in_buf 0x1000 3 a
        then map_option (\<lambda>b. b XOR 0xAA) (mem_of 0x1000 [0x00, 0xFF, 0xAA] a)
        else mem_of 0x1000 [0x00, 0xFF, 0xAA] a) = mem_of 0x1000 [0xAA, 0x55, 0x00] a"
    by (auto simp add: in_buf_def mem_of_def lt)
qed

section \<open>Properties of the three operations\<close>

text \<open>
  \<^bold>\<open>C1.\<close> On a buffer of \<open>len\<close> bytes, \<open>mock_send\<close> returns the sum of the \<open>len\<close> byte
  values, each read as an unsigned value \<open>0 .. 255\<close>, accumulated in a 64-bit signed
  integer: the returned word is the sum, its signed reading is the sum reduced to the
  \<open>int64_t\<close> range, and it is the sum itself as long as the sum is below \<open>2 ^ 63\<close>. For the
  length 0 it returns 0, whatever the pointer.
\<close>

theorem mock_send_sum:
  "(valid_buf m data len \<longrightarrow>
      (\<exists>r. map_option fst (mock_send m data len) = Some r \<and>
           r = word_of_nat (byte_sum (buf_bytes m data len)) \<and>
           sint r = signed_take_bit 63 (int (byte_sum (buf_bytes m data len))) \<and>
           (byte_sum (buf_bytes m data len) < 2 ^ 63 \<longrightarrow>
              sint r = int (byte_sum (buf_bytes m data len))))) \<and>
   map_option fst (mock_send m data 0) = Some 0"
proof (intro conjI impI)
  assume v: "valid_buf m data len"
  show "\<exists>r. map_option fst (mock_send m data len) = Some r \<and>
           r = word_of_nat (byte_sum (buf_bytes m data len)) \<and>
           sint r = signed_take_bit 63 (int (byte_sum (buf_bytes m data len))) \<and>
           (byte_sum (buf_bytes m data len) < 2 ^ 63 \<longrightarrow>
              sint r = int (byte_sum (buf_bytes m data len)))"
  proof (intro exI conjI impI)
    show "map_option fst (mock_send m data len) =
            Some (word_of_nat (byte_sum (buf_bytes m data len)))"
      by (simp add: mock_send_result [OF v])
    show "sint (word_of_nat (byte_sum (buf_bytes m data len)) :: int64_t) =
            signed_take_bit 63 (int (byte_sum (buf_bytes m data len)))"
      by (rule sint_of_nat)
    show "sint (word_of_nat (byte_sum (buf_bytes m data len)) :: int64_t) =
            int (byte_sum (buf_bytes m data len))"
      if "byte_sum (buf_bytes m data len) < 2 ^ 63"
      using that by (rule sint_of_nat_small)
  qed simp
next
  show "map_option fst (mock_send m data 0) = Some 0"
    by (simp add: mock_send_def mock_send_loop.simps [of m data 0 0 0])
qed

theorem mock_send_sum_witness:
  "valid_buf (mem_of 0x1000 [0xFF, 0x80, 0x01]) 0x1000 3 \<and>
   byte_sum (buf_bytes (mem_of 0x1000 [0xFF, 0x80, 0x01]) 0x1000 3) = 384 \<and>
   map_option fst (mock_send (mem_of 0x1000 [0xFF, 0x80, 0x01]) 0x1000 3) = Some 384"
proof -
  have v: "valid_buf (mem_of 0x1000 [0xFF, 0x80, 0x01]) 0x1000 3"
    by (simp add: valid_buf_def mem_of_def upt_3)
  have s: "byte_sum (buf_bytes (mem_of 0x1000 [0xFF, 0x80, 0x01]) 0x1000 3) = 384"
    by (simp add: byte_sum_def buf_bytes_def mem_of_def upt_3)
  from v s mock_send_sum [of "mem_of 0x1000 [0xFF, 0x80, 0x01]" "0x1000" 3]
  show ?thesis by simp
qed

text \<open>
  \<^bold>\<open>C2.\<close> On a writable buffer of \<open>len\<close> bytes, \<open>mock_recv\<close> returns, the byte at every
  position \<open>i < len\<close> is \<open>i mod 256\<close> afterwards, and the returned value is \<open>len\<close>: the
  same 64 bits, and the same integer under the signed reading of \<open>int64_t\<close> for every
  length below \<open>2 ^ 63\<close>.
\<close>

theorem mock_recv_pattern:
  assumes "valid_buf m buf len"
  shows "\<exists>r m'. mock_recv m buf len = Some (r, m') \<and>
           (\<forall>i. i < len \<longrightarrow> (\<exists>b. m' (buf + i) = Some b \<and> unat b = unat i mod 256)) \<and>
           r = len \<and>
           (unat len < 2 ^ 63 \<longrightarrow> sint r = int (unat len))"
proof -
  have "unat len < 2 ^ 63 \<Longrightarrow> sint len = int (unat len)"
    using sint_of_nat_small [of "unat len"] by simp
  then show ?thesis
    by (simp add: mock_recv_result [OF assms] in_buf_offset pattern_byte_mod)
qed

theorem mock_recv_pattern_witness:
  "valid_buf (mem_of 0x3000 [7, 7, 7, 7]) 0x3000 4 \<and>
   (\<exists>r m'. mock_recv (mem_of 0x3000 [7, 7, 7, 7]) 0x3000 4 = Some (r, m') \<and>
      (\<exists>b. m' (0x3000 + 3) = Some b \<and> unat b = 3) \<and> sint r = 4)"
proof -
  have v: "valid_buf (mem_of 0x3000 [7, 7, 7, 7]) 0x3000 4"
    by (simp add: valid_buf_def mem_of_def upt_4)
  from mock_recv_pattern [OF v] obtain r m' where
    r: "mock_recv (mem_of 0x3000 [7, 7, 7, 7]) 0x3000 4 = Some (r, m')"
    and b: "\<forall>i. i < 4 \<longrightarrow> (\<exists>b. m' (0x3000 + i) = Some b \<and> unat b = unat i mod 256)"
    and s: "unat (4 :: size_t) < 2 ^ 63 \<longrightarrow> sint r = int (unat (4 :: size_t))"
    by blast
  from b have "(3 :: size_t) < 4 \<longrightarrow> (\<exists>b. m' (0x3000 + 3) = Some b \<and> unat b = unat (3 :: size_t) mod 256)"
    by blast
  then have "\<exists>b. m' (0x3000 + 3) = Some b \<and> unat b = 3" by simp
  moreover from s have "sint r = 4" by simp
  ultimately show ?thesis using v r by blast
qed

text \<open>
  \<^bold>\<open>C3.\<close> \<open>mock_transform\<close> is its own inverse: on a buffer of \<open>len\<close> bytes, a second
  call on the memory the first call left restores the memory the first call started
  from.
\<close>

theorem mock_transform_self_inverse:
  assumes "valid_buf m data len"
  shows "\<exists>m'. mock_transform m data len = Some m' \<and> mock_transform m' data len = Some m"
proof -
  let ?m' = "\<lambda>a. if in_buf data len a then map_option (\<lambda>b. b XOR 0xAA) (m a) else m a"
  have 1: "mock_transform m data len = Some ?m'"
    by (rule mock_transform_result [OF assms])
  have v': "valid_buf ?m' data len"
    by (rule valid_buf_transform [OF assms])
  have "(\<lambda>a. if in_buf data len a then map_option (\<lambda>b. b XOR 0xAA) (?m' a) else ?m' a) = m"
    by (rule ext) (simp add: option.map_comp comp_def xor_aa_twice option.map_ident)
  with mock_transform_result [OF v'] have "mock_transform ?m' data len = Some m"
    by simp
  with 1 show ?thesis by blast
qed

theorem mock_transform_self_inverse_witness:
  "valid_buf (mem_of 0x4000 [0x12, 0x34]) 0x4000 2 \<and>
   (\<exists>m'. mock_transform (mem_of 0x4000 [0x12, 0x34]) 0x4000 2 = Some m' \<and>
         mock_transform m' 0x4000 2 = Some (mem_of 0x4000 [0x12, 0x34]))"
proof -
  have v: "valid_buf (mem_of 0x4000 [0x12, 0x34]) 0x4000 2"
    by (simp add: valid_buf_def mem_of_def upt_2)
  with mock_transform_self_inverse [OF v] show ?thesis by simp
qed

text \<open>
  \<^bold>\<open>C4.\<close> On a buffer of \<open>len\<close> bytes, \<open>mock_transform\<close> returns and leaves, at every
  position \<open>i < len\<close>, the byte that was there XOR \<open>0xAA\<close>. With the length 0 it returns
  the memory as it was. On the three bytes \<open>00 FF AA\<close> it leaves \<open>AA 55 00\<close>.
\<close>

theorem mock_transform_xor:
  "(valid_buf m data len \<longrightarrow>
      (\<exists>m'. mock_transform m data len = Some m' \<and>
         (\<forall>i b. i < len \<and> m (data + i) = Some b \<longrightarrow> m' (data + i) = Some (b XOR 0xAA)))) \<and>
   mock_transform m data 0 = Some m \<and>
   mock_transform (mem_of 0x1000 [0x00, 0xFF, 0xAA]) 0x1000 3 =
     Some (mem_of 0x1000 [0xAA, 0x55, 0x00])"
proof (intro conjI impI)
  assume v: "valid_buf m data len"
  show "\<exists>m'. mock_transform m data len = Some m' \<and>
         (\<forall>i b. i < len \<and> m (data + i) = Some b \<longrightarrow> m' (data + i) = Some (b XOR 0xAA))"
    by (simp add: mock_transform_result [OF v] in_buf_offset)
next
  show "mock_transform m data 0 = Some m"
    by (simp add: mock_transform_def mock_transform_loop.simps [of m data 0 0])
next
  have "valid_buf (mem_of 0x1000 [0x00, 0xFF, 0xAA]) 0x1000 3"
    by (rule valid_buf_mem_of) simp
  from mock_transform_result [OF this]
  show "mock_transform (mem_of 0x1000 [0x00, 0xFF, 0xAA]) 0x1000 3 =
          Some (mem_of 0x1000 [0xAA, 0x55, 0x00])"
    by (simp only: mem_of_transform_example)
qed

theorem mock_transform_xor_witness:
  "valid_buf (mem_of 0x5000 [0x0F, 0xF0]) 0x5000 2 \<and>
   (\<exists>m'. mock_transform (mem_of 0x5000 [0x0F, 0xF0]) 0x5000 2 = Some m' \<and>
      m' (0x5000 + 1) = Some 0x5A)"
proof -
  have v: "valid_buf (mem_of 0x5000 [0x0F, 0xF0]) 0x5000 2"
    by (simp add: valid_buf_def mem_of_def upt_2)
  with mock_transform_xor [of "mem_of 0x5000 [0x0F, 0xF0]" "0x5000" 2] obtain m' where
    t: "mock_transform (mem_of 0x5000 [0x0F, 0xF0]) 0x5000 2 = Some m'"
    and x: "\<forall>i b. i < 2 \<and> mem_of 0x5000 [0x0F, 0xF0] (0x5000 + i) = Some b
               \<longrightarrow> m' (0x5000 + i) = Some (b XOR 0xAA)"
    by blast
  have "(1 :: size_t) < 2 \<and> mem_of 0x5000 [0x0F, 0xF0] (0x5000 + 1) = Some 0xF0"
    by (simp add: mem_of_def)
  with x have "m' (0x5000 + 1) = Some (0xF0 XOR 0xAA)" by blast
  then have "m' (0x5000 + 1) = Some 0x5A" by simp
  with v t show ?thesis by blast
qed

text \<open>
  \<^bold>\<open>C5.\<close> \<open>mock_send\<close> does not modify the buffer: on a buffer of \<open>len\<close> bytes it returns
  and the memory is the one it was given, and whenever it returns at all, every byte of the
  memory has the value it had before the call.
\<close>

theorem mock_send_readonly:
  "(valid_buf m data len \<longrightarrow> (\<exists>r. mock_send m data len = Some (r, m))) \<and>
   (mock_send m data len = Some (r, m') \<longrightarrow> m' = m)"
proof (intro conjI impI)
  assume "valid_buf m data len"
  then show "\<exists>r. mock_send m data len = Some (r, m)"
    by (simp add: mock_send_result)
next
  assume "mock_send m data len = Some (r, m')"
  then show "m' = m"
    unfolding mock_send_def by (rule mock_send_loop_frame)
qed

theorem mock_send_readonly_witness:
  "valid_buf (mem_of 0x6000 [9, 8, 7]) 0x6000 3 \<and>
   mock_send (mem_of 0x6000 [9, 8, 7]) 0x6000 3 = Some (24, mem_of 0x6000 [9, 8, 7])"
proof -
  have v: "valid_buf (mem_of 0x6000 [9, 8, 7]) 0x6000 3"
    by (simp add: valid_buf_def mem_of_def upt_3)
  have s: "map_option fst (mock_send (mem_of 0x6000 [9, 8, 7]) 0x6000 3) = Some 24"
    by (simp add: mock_send_def mock_send_loop.simps mem_of_def)
  from mock_send_readonly [of "mem_of 0x6000 [9, 8, 7]" "0x6000" 3] v
  obtain r where r: "mock_send (mem_of 0x6000 [9, 8, 7]) 0x6000 3 = Some (r, mem_of 0x6000 [9, 8, 7])"
    by blast
  with s have "r = 24" by simp
  with v r show ?thesis by simp
qed

text \<open>
  \<^bold>\<open>C6.\<close> What \<open>mock_recv\<close> produces does not depend on what the buffer held: for two
  buffers of \<open>len\<close> bytes, anywhere and with any contents, both calls return the same value
  and leave the same contents, the byte at position \<open>i\<close> being a function of \<open>i\<close> alone.
\<close>

theorem mock_recv_ignores_contents:
  assumes "valid_buf m1 buf1 len" and "valid_buf m2 buf2 len"
  shows "\<exists>r m1' m2'. mock_recv m1 buf1 len = Some (r, m1') \<and>
           mock_recv m2 buf2 len = Some (r, m2') \<and>
           buf_contents m1' buf1 len = buf_contents m2' buf2 len \<and>
           (\<forall>i. i < len \<longrightarrow> m1' (buf1 + i) = Some (ucast (i AND 0xFF)) \<and>
                            m2' (buf2 + i) = Some (ucast (i AND 0xFF)))"
  by (simp add: mock_recv_result [OF assms(1)] mock_recv_result [OF assms(2)]
        buf_contents_eq_iff in_buf_offset)

theorem mock_recv_ignores_contents_witness:
  "valid_buf (mem_of 0x7000 [1, 2, 3]) 0x7000 3 \<and>
   valid_buf (mem_of 0x8000 [0xFF, 0xFE, 0xFD, 0xFC]) 0x8000 3 \<and>
   buf_contents (mem_of 0x7000 [1, 2, 3]) 0x7000 3 \<noteq>
     buf_contents (mem_of 0x8000 [0xFF, 0xFE, 0xFD, 0xFC]) 0x8000 3 \<and>
   (\<exists>r m1' m2'. mock_recv (mem_of 0x7000 [1, 2, 3]) 0x7000 3 = Some (r, m1') \<and>
      mock_recv (mem_of 0x8000 [0xFF, 0xFE, 0xFD, 0xFC]) 0x8000 3 = Some (r, m2') \<and>
      buf_contents m1' 0x7000 3 = buf_contents m2' 0x8000 3)"
proof -
  have v1: "valid_buf (mem_of 0x7000 [1, 2, 3]) 0x7000 3"
    by (simp add: valid_buf_def mem_of_def upt_3)
  have v2: "valid_buf (mem_of 0x8000 [0xFF, 0xFE, 0xFD, 0xFC]) 0x8000 3"
    by (simp add: valid_buf_def mem_of_def upt_3)
  have d: "buf_contents (mem_of 0x7000 [1, 2, 3]) 0x7000 3 \<noteq>
     buf_contents (mem_of 0x8000 [0xFF, 0xFE, 0xFD, 0xFC]) 0x8000 3"
    by (simp add: buf_contents_def mem_of_def upt_3)
  from mock_recv_ignores_contents [OF v1 v2] v1 v2 d show ?thesis by blast
qed

text \<open>
  \<^bold>\<open>C7.\<close> Each of the three operations is a function of the buffer's contents and the
  length: run on two memories whose buffers of \<open>len\<close> bytes hold the same contents, an
  operation returns in both, with the same return value and the same resulting buffer
  contents, whatever the two memories hold elsewhere; and it leaves every byte outside the
  buffer as it was. The memory is the only state of the model, as the source has no
  variable outside its functions.
\<close>

theorem mock_ops_deterministic:
  assumes "valid_buf m1 p1 len"
    and "buf_contents m1 p1 len = buf_contents m2 p2 len"
  shows "(\<exists>r m1' m2'. mock_send m1 p1 len = Some (r, m1') \<and>
            mock_send m2 p2 len = Some (r, m2') \<and>
            buf_contents m1' p1 len = buf_contents m2' p2 len \<and>
            (\<forall>a. \<not> in_buf p1 len a \<longrightarrow> m1' a = m1 a) \<and>
            (\<forall>a. \<not> in_buf p2 len a \<longrightarrow> m2' a = m2 a)) \<and>
         (\<exists>r m1' m2'. mock_recv m1 p1 len = Some (r, m1') \<and>
            mock_recv m2 p2 len = Some (r, m2') \<and>
            buf_contents m1' p1 len = buf_contents m2' p2 len \<and>
            (\<forall>a. \<not> in_buf p1 len a \<longrightarrow> m1' a = m1 a) \<and>
            (\<forall>a. \<not> in_buf p2 len a \<longrightarrow> m2' a = m2 a)) \<and>
         (\<exists>m1' m2'. mock_transform m1 p1 len = Some m1' \<and>
            mock_transform m2 p2 len = Some m2' \<and>
            buf_contents m1' p1 len = buf_contents m2' p2 len \<and>
            (\<forall>a. \<not> in_buf p1 len a \<longrightarrow> m1' a = m1 a) \<and>
            (\<forall>a. \<not> in_buf p2 len a \<longrightarrow> m2' a = m2 a))"
proof -
  have eq: "\<forall>i. i < len \<longrightarrow> m1 (p1 + i) = m2 (p2 + i)"
    using assms(2) by (simp add: buf_contents_eq_iff)
  have v2: "valid_buf m2 p2 len"
    using assms(1) eq by (simp add: valid_buf_iff)
  have "map (\<lambda>k. the (m1 (p1 + of_nat k))) [0..<unat len] =
        map (\<lambda>k. the (m2 (p2 + of_nat k))) [0..<unat len]"
    using assms(2) unfolding buf_contents_def map_eq_conv by simp
  then have bytes: "buf_bytes m1 p1 len = buf_bytes m2 p2 len"
    by (simp add: buf_bytes_def)
  have send: "\<exists>r m1' m2'. mock_send m1 p1 len = Some (r, m1') \<and>
            mock_send m2 p2 len = Some (r, m2') \<and>
            buf_contents m1' p1 len = buf_contents m2' p2 len \<and>
            (\<forall>a. \<not> in_buf p1 len a \<longrightarrow> m1' a = m1 a) \<and>
            (\<forall>a. \<not> in_buf p2 len a \<longrightarrow> m2' a = m2 a)"
    using assms(2) by (simp add: mock_send_result [OF assms(1)] mock_send_result [OF v2] bytes)
  have recv: "\<exists>r m1' m2'. mock_recv m1 p1 len = Some (r, m1') \<and>
            mock_recv m2 p2 len = Some (r, m2') \<and>
            buf_contents m1' p1 len = buf_contents m2' p2 len \<and>
            (\<forall>a. \<not> in_buf p1 len a \<longrightarrow> m1' a = m1 a) \<and>
            (\<forall>a. \<not> in_buf p2 len a \<longrightarrow> m2' a = m2 a)"
    by (simp add: mock_recv_result [OF assms(1)] mock_recv_result [OF v2]
          buf_contents_eq_iff in_buf_offset)
  have trans: "\<exists>m1' m2'. mock_transform m1 p1 len = Some m1' \<and>
            mock_transform m2 p2 len = Some m2' \<and>
            buf_contents m1' p1 len = buf_contents m2' p2 len \<and>
            (\<forall>a. \<not> in_buf p1 len a \<longrightarrow> m1' a = m1 a) \<and>
            (\<forall>a. \<not> in_buf p2 len a \<longrightarrow> m2' a = m2 a)"
    using eq by (simp add: mock_transform_result [OF assms(1)] mock_transform_result [OF v2]
          buf_contents_eq_iff in_buf_offset)
  from send recv trans show ?thesis by (intro conjI)
qed

theorem mock_ops_deterministic_witness:
  "valid_buf (mem_of 0x9000 [5, 6]) 0x9000 2 \<and>
   buf_contents (mem_of 0x9000 [5, 6]) 0x9000 2 = buf_contents (mem_of 0xA000 [5, 6, 9]) 0xA000 2 \<and>
   (\<exists>r m1' m2'. mock_send (mem_of 0x9000 [5, 6]) 0x9000 2 = Some (r, m1') \<and>
      mock_send (mem_of 0xA000 [5, 6, 9]) 0xA000 2 = Some (r, m2')) \<and>
   (\<exists>r m1' m2'. mock_recv (mem_of 0x9000 [5, 6]) 0x9000 2 = Some (r, m1') \<and>
      mock_recv (mem_of 0xA000 [5, 6, 9]) 0xA000 2 = Some (r, m2') \<and>
      buf_contents m1' 0x9000 2 = buf_contents m2' 0xA000 2) \<and>
   (\<exists>m1' m2'. mock_transform (mem_of 0x9000 [5, 6]) 0x9000 2 = Some m1' \<and>
      mock_transform (mem_of 0xA000 [5, 6, 9]) 0xA000 2 = Some m2' \<and>
      buf_contents m1' 0x9000 2 = buf_contents m2' 0xA000 2 \<and>
      m2' (0xA000 + 2) = Some 9)"
proof -
  have v: "valid_buf (mem_of 0x9000 [5, 6]) 0x9000 2"
    by (simp add: valid_buf_def mem_of_def upt_2)
  have e: "buf_contents (mem_of 0x9000 [5, 6]) 0x9000 2 =
           buf_contents (mem_of 0xA000 [5, 6, 9]) 0xA000 2"
    by (simp add: buf_contents_def mem_of_def upt_2)
  have out: "\<not> in_buf 0xA000 2 (0xA000 + 2)"
    by (simp add: in_buf_def)
  have old: "mem_of 0xA000 [5, 6, 9] (0xA000 + 2) = Some 9"
    by (simp add: mem_of_def)
  note d = mock_ops_deterministic [OF v e]
  from d obtain r m1' m2' where
    "mock_send (mem_of 0x9000 [5, 6]) 0x9000 2 = Some (r, m1')"
    "mock_send (mem_of 0xA000 [5, 6, 9]) 0xA000 2 = Some (r, m2')"
    by blast
  then have send: "\<exists>r m1' m2'. mock_send (mem_of 0x9000 [5, 6]) 0x9000 2 = Some (r, m1') \<and>
      mock_send (mem_of 0xA000 [5, 6, 9]) 0xA000 2 = Some (r, m2')"
    by blast
  from d obtain r' n1 n2 where
    "mock_recv (mem_of 0x9000 [5, 6]) 0x9000 2 = Some (r', n1)"
    "mock_recv (mem_of 0xA000 [5, 6, 9]) 0xA000 2 = Some (r', n2)"
    "buf_contents n1 0x9000 2 = buf_contents n2 0xA000 2"
    by blast
  then have recv: "\<exists>r m1' m2'. mock_recv (mem_of 0x9000 [5, 6]) 0x9000 2 = Some (r, m1') \<and>
      mock_recv (mem_of 0xA000 [5, 6, 9]) 0xA000 2 = Some (r, m2') \<and>
      buf_contents m1' 0x9000 2 = buf_contents m2' 0xA000 2"
    by blast
  from d obtain k1 k2 where
    t: "mock_transform (mem_of 0x9000 [5, 6]) 0x9000 2 = Some k1"
    "mock_transform (mem_of 0xA000 [5, 6, 9]) 0xA000 2 = Some k2"
    "buf_contents k1 0x9000 2 = buf_contents k2 0xA000 2"
    and fr: "\<forall>a. \<not> in_buf 0xA000 2 a \<longrightarrow> k2 a = mem_of 0xA000 [5, 6, 9] a"
    by blast
  from fr out old have "k2 (0xA000 + 2) = Some 9" by metis
  with t have trans: "\<exists>m1' m2'. mock_transform (mem_of 0x9000 [5, 6]) 0x9000 2 = Some m1' \<and>
      mock_transform (mem_of 0xA000 [5, 6, 9]) 0xA000 2 = Some m2' \<and>
      buf_contents m1' 0x9000 2 = buf_contents m2' 0xA000 2 \<and>
      m2' (0xA000 + 2) = Some 9"
    by blast
  from v e send recv trans show ?thesis by (intro conjI)
qed

text \<open>
  \<^bold>\<open>C8.\<close> The scenarios of the spec: after \<open>mock_recv(buf, 300)\<close> on a buffer of 320 bytes,
  \<open>buf[0] = 0\<close>, \<open>buf[255] = 255\<close>, \<open>buf[256] = 0\<close> and \<open>buf[299] = 43\<close>, and the call
  returns 300; \<open>mock_send\<close> on the four bytes \<open>1 2 3 4\<close> returns 10.
\<close>

theorem mock_scenarios:
  "(\<exists>r m'. mock_recv (mem_of 0x1000 (replicate 320 0xEE)) 0x1000 300 = Some (r, m') \<and>
      sint r = 300 \<and>
      m' (0x1000 + 0) = Some 0 \<and> m' (0x1000 + 255) = Some 255 \<and>
      m' (0x1000 + 256) = Some 0 \<and> m' (0x1000 + 299) = Some 43) \<and>
   map_option fst (mock_send (mem_of 0x2000 [1, 2, 3, 4]) 0x2000 4) = Some 10"
proof (intro conjI)
  have "valid_buf (mem_of 0x1000 (replicate 320 0xEE)) 0x1000 300"
    by (rule valid_buf_mem_of) simp
  from mock_recv_result [OF this]
  show "\<exists>r m'. mock_recv (mem_of 0x1000 (replicate 320 0xEE)) 0x1000 300 = Some (r, m') \<and>
      sint r = 300 \<and>
      m' (0x1000 + 0) = Some 0 \<and> m' (0x1000 + 255) = Some 255 \<and>
      m' (0x1000 + 256) = Some 0 \<and> m' (0x1000 + 299) = Some 43"
    by (simp add: in_buf_def)
next
  show "map_option fst (mock_send (mem_of 0x2000 [1, 2, 3, 4]) 0x2000 4) = Some 10"
    by (simp add: mock_send_def mock_send_loop.simps mem_of_def)
qed

text \<open>
  \<^bold>\<open>C9.\<close> \<open>mock_recv\<close> and \<open>mock_transform\<close> write only within \<open>[0, len)\<close>: on a buffer of
  \<open>len\<close> bytes, every byte at a position \<open>j \<ge> len\<close>, that is, every byte of the memory
  that is not one of the \<open>len\<close> bytes of the buffer, is afterwards what it was before.
\<close>

theorem mock_writes_within_len:
  assumes "valid_buf m p len"
  shows "(\<exists>r m'. mock_recv m p len = Some (r, m') \<and>
            (\<forall>j. len \<le> j \<longrightarrow> m' (p + j) = m (p + j)) \<and>
            (\<forall>a. \<not> in_buf p len a \<longrightarrow> m' a = m a)) \<and>
         (\<exists>m'. mock_transform m p len = Some m' \<and>
            (\<forall>j. len \<le> j \<longrightarrow> m' (p + j) = m (p + j)) \<and>
            (\<forall>a. \<not> in_buf p len a \<longrightarrow> m' a = m a))"
  by (auto simp add: mock_recv_result [OF assms] mock_transform_result [OF assms] in_buf_offset)

theorem mock_writes_within_len_witness:
  "valid_buf (mem_of 0xB000 [1, 2, 3, 4, 5]) 0xB000 2 \<and>
   (\<exists>r m'. mock_recv (mem_of 0xB000 [1, 2, 3, 4, 5]) 0xB000 2 = Some (r, m') \<and>
      m' (0xB000 + 2) = Some 3 \<and> m' (0xB000 + 4) = Some 5) \<and>
   (\<exists>m'. mock_transform (mem_of 0xB000 [1, 2, 3, 4, 5]) 0xB000 2 = Some m' \<and>
      m' (0xB000 + 2) = Some 3 \<and> m' (0xB000 + 4) = Some 5)"
proof -
  have v: "valid_buf (mem_of 0xB000 [1, 2, 3, 4, 5]) 0xB000 2"
    by (simp add: valid_buf_def mem_of_def upt_2)
  have o2: "mem_of 0xB000 [1, 2, 3, 4, 5] (0xB000 + 2) = Some 3"
    and o4: "mem_of 0xB000 [1, 2, 3, 4, 5] (0xB000 + 4) = Some 5"
    by (simp_all add: mem_of_def)
  have le: "(2 :: size_t) \<le> 2" "(2 :: size_t) \<le> 4" by simp_all
  note w = mock_writes_within_len [OF v]
  from w obtain r m' where
    "mock_recv (mem_of 0xB000 [1, 2, 3, 4, 5]) 0xB000 2 = Some (r, m')"
    "\<forall>j. 2 \<le> j \<longrightarrow> m' (0xB000 + j) = mem_of 0xB000 [1, 2, 3, 4, 5] (0xB000 + j)"
    by blast
  with le o2 o4 have recv: "\<exists>r m'. mock_recv (mem_of 0xB000 [1, 2, 3, 4, 5]) 0xB000 2 = Some (r, m') \<and>
      m' (0xB000 + 2) = Some 3 \<and> m' (0xB000 + 4) = Some 5"
    by metis
  from w obtain k where
    "mock_transform (mem_of 0xB000 [1, 2, 3, 4, 5]) 0xB000 2 = Some k"
    "\<forall>j. 2 \<le> j \<longrightarrow> k (0xB000 + j) = mem_of 0xB000 [1, 2, 3, 4, 5] (0xB000 + j)"
    by blast
  with le o2 o4 have trans: "\<exists>m'. mock_transform (mem_of 0xB000 [1, 2, 3, 4, 5]) 0xB000 2 = Some m' \<and>
      m' (0xB000 + 2) = Some 3 \<and> m' (0xB000 + 4) = Some 5"
    by metis
  from v recv trans show ?thesis by (intro conjI)
qed

text \<open>
  \<^bold>\<open>C10.\<close> On a buffer of \<open>len\<close> bytes with \<open>255 * len < 2 ^ 63\<close>, the value \<open>mock_send\<close>
  returns, read as a signed 64-bit integer, is at least 0 and at most \<open>255 * len\<close>.
\<close>

theorem mock_send_bounds:
  assumes "valid_buf m data len" and "255 * unat len < 2 ^ 63"
  shows "\<exists>r m'. mock_send m data len = Some (r, m') \<and> 0 \<le> sint r \<and> sint r \<le> 255 * int (unat len)"
proof -
  let ?s = "byte_sum (buf_bytes m data len)"
  have "?s \<le> 255 * length (buf_bytes m data len)" by (rule byte_sum_le)
  then have le: "?s \<le> 255 * unat len" by (simp add: buf_bytes_def)
  with assms(2) have "?s < 2 ^ 63" by simp
  then have "sint (word_of_nat ?s :: int64_t) = int ?s" by (rule sint_of_nat_small)
  moreover have "int ?s \<le> 255 * int (unat len)" using le by linarith
  ultimately show ?thesis by (simp add: mock_send_result [OF assms(1)])
qed

theorem mock_send_bounds_witness:
  "valid_buf (mem_of 0xC000 [0xFF, 0xFF]) 0xC000 2 \<and> 255 * unat (2 :: size_t) < 2 ^ 63 \<and>
   (\<exists>r m'. mock_send (mem_of 0xC000 [0xFF, 0xFF]) 0xC000 2 = Some (r, m') \<and>
      0 \<le> sint r \<and> sint r \<le> 510)"
proof -
  have v: "valid_buf (mem_of 0xC000 [0xFF, 0xFF]) 0xC000 2"
    by (simp add: valid_buf_def mem_of_def upt_2)
  have b: "255 * unat (2 :: size_t) < 2 ^ 63" by simp
  from mock_send_bounds [OF v b] v b show ?thesis by simp
qed

end
